theory Spec2Isabelle
  imports Main "HOL-Library.Word"
begin

section \<open>A SOCKS5 client: byte reader, address codec, handshake\<close>

text \<open>
  The development follows \<^verbatim>\<open>src/utils.ts\<close>. JavaScript numbers that the code computes
  with are integers here (\<^typ>\<open>int\<close>); the elements of a \<^verbatim>\<open>Uint8Array\<close> are
  \<^typ>\<open>8 word\<close>. A JavaScript string is represented by the sequence of its UTF-8 bytes
  (\<^typ>\<open>string\<close>): the regular expressions, \<^verbatim>\<open>split\<close> and \<^verbatim>\<open>join\<close> of the code only
  look at ASCII characters, which UTF-8 keeps as single bytes, and \<^verbatim>\<open>TextEncoder.encode\<close>
  is then the identity on the bytes. Strings with unpaired surrogates have no such
  representation and are outside the model, as are numbers that are not integers.
\<close>

type_synonym u8 = "8 word"

subsection \<open>Errors\<close>

text \<open>
  \<^verbatim>\<open>Deno.errors.UnexpectedEof\<close> and the plain \<^verbatim>\<open>Error\<close>, each with its message.
\<close>

datatype error = UnexpectedEof string | Error string

subsection \<open>Numbers as text\<close>

text \<open>
  \<^verbatim>\<open>String(x)\<close> and \<^verbatim>\<open>${x}\<close> for a number \<open>x\<close> that is an integer: the decimal digits, after
  a minus sign when \<open>x\<close> is negative.
\<close>

definition digit_char :: "int \<Rightarrow> char" where
  "digit_char d = ''0123456789'' ! nat d"

function String_digits :: "int \<Rightarrow> string" where
  "String_digits n =
     (if n < 10 then [digit_char n] else String_digits (n div 10) @ [digit_char (n mod 10)])"
  by pat_completeness auto
termination
  by (relation "measure nat") auto

declare String_digits.simps [simp del]

definition String_num :: "int \<Rightarrow> string" where
  "String_num x = (if x < 0 then ''-'' @ String_digits (- x) else String_digits x)"

subsection \<open>The byte reader\<close>

text \<open>
  A \<^verbatim>\<open>Reader\<close> is given by what the transport will deliver: the chunks that successive
  \<^verbatim>\<open>read\<close> calls find available, in order, and end-of-stream after the last one.
  \<^verbatim>\<open>read(p)\<close> copies at most \<^verbatim>\<open>p.length\<close> bytes of the chunk at the front and leaves the
  rest of that chunk for the next call; it answers \<^verbatim>\<open>null\<close> (\<open>None\<close>) at end-of-stream.
\<close>

type_synonym reader = "u8 list list"

definition read :: "reader \<Rightarrow> nat \<Rightarrow> u8 list option \<times> reader" where
  "read r len =
     (case r of
        [] \<Rightarrow> (None, [])
      | c # cs \<Rightarrow> (Some (take len c), if len < length c then drop len c # cs else cs))"

text \<open>The message of the error thrown at end-of-stream, \<open>k\<close> being \<^verbatim>\<open>n - nRead\<close>.\<close>

definition eof_message :: "nat \<Rightarrow> string" where
  "eof_message k = ''reached EOF but we expected to read '' @ String_num (int k) @ '' more bytes''"

text \<open>
  \<^verbatim>\<open>readN\<close>: the loop \<^verbatim>\<open>while (nRead < n)\<close>. The buffer \<^verbatim>\<open>out\<close> is modelled by the bytes
  written into it so far, so \<^verbatim>\<open>nRead\<close> is \<open>length out\<close> and \<^verbatim>\<open>out.subarray(nRead)\<close> has
  \<open>n - length out\<close> bytes.
\<close>

function readN_loop :: "reader \<Rightarrow> nat \<Rightarrow> u8 list \<Rightarrow> (error + u8 list) \<times> reader" where
  "readN_loop r n out =
     (if length out < n then
        (case read r (n - length out) of
           (None, r') \<Rightarrow>
             (Inl (UnexpectedEof (eof_message (n - length out))), r')
         | (Some m, r') \<Rightarrow> readN_loop r' n (out @ m))
      else (Inr out, r))"
  by pat_completeness auto
termination
  by (relation "measures [\<lambda>(r, n, out). length r, \<lambda>(r, n, out). n - length out]")
     (auto simp: read_def split: list.splits if_splits)

declare readN_loop.simps [simp del]

definition readN :: "reader \<Rightarrow> nat \<Rightarrow> (error + u8 list) \<times> reader" where
  "readN r n = readN_loop r n []"

subsection \<open>Protocol constants\<close>

definition SOCKS_VERSION :: int where
  "SOCKS_VERSION = 5"

definition USERNAME_PASSWORD_AUTH_VERSION :: int where
  "USERNAME_PASSWORD_AUTH_VERSION = 1"

datatype AddrType = IPv4 | DomainName | IPv6

fun AddrType_code :: "AddrType \<Rightarrow> int" where
  "AddrType_code IPv4 = 1"
| "AddrType_code DomainName = 3"
| "AddrType_code IPv6 = 4"

datatype AuthMethod = NoAuth | UsernamePassword | NoneAcceptable

fun AuthMethod_code :: "AuthMethod \<Rightarrow> int" where
  "AuthMethod_code NoAuth = 0"
| "AuthMethod_code UsernamePassword = 2"
| "AuthMethod_code NoneAcceptable = 255"

datatype ReplyStatus =
  Success | GeneralError | RulesetError | NetworkUnreachable | HostUnreachable
  | ConnectionRefused | TTLExpired | UnsupportedCommand | UnsupportedAddress

fun ReplyStatus_code :: "ReplyStatus \<Rightarrow> int" where
  "ReplyStatus_code Success = 0"
| "ReplyStatus_code GeneralError = 1"
| "ReplyStatus_code RulesetError = 2"
| "ReplyStatus_code NetworkUnreachable = 3"
| "ReplyStatus_code HostUnreachable = 4"
| "ReplyStatus_code ConnectionRefused = 5"
| "ReplyStatus_code TTLExpired = 6"
| "ReplyStatus_code UnsupportedCommand = 7"
| "ReplyStatus_code UnsupportedAddress = 8"

datatype Command = Connect | Bind | UdpAssociate

fun Command_code :: "Command \<Rightarrow> int" where
  "Command_code Connect = 1"
| "Command_code Bind = 2"
| "Command_code UdpAssociate = 3"

subsection \<open>The reply-status interpreter\<close>

definition decodeError :: "int \<Rightarrow> string" where
  "decodeError status =
     (if status = ReplyStatus_code GeneralError then ''general SOCKS server failure''
      else if status = ReplyStatus_code RulesetError then ''connection not allowed by ruleset''
      else if status = ReplyStatus_code NetworkUnreachable then ''Network unreachable''
      else if status = ReplyStatus_code HostUnreachable then ''Host unreachable''
      else if status = ReplyStatus_code ConnectionRefused then ''Connection refused''
      else if status = ReplyStatus_code TTLExpired then ''TTL expired''
      else if status = ReplyStatus_code UnsupportedCommand then ''Command not supported''
      else if status = ReplyStatus_code UnsupportedAddress then ''Address type not supported''
      else ''unknown SOCKS error'')"

subsection \<open>JavaScript arithmetic on integers\<close>

text \<open>
  The bitwise operators first bring their operand into the signed 32-bit range
  (\<^verbatim>\<open>ToInt32\<close>); \<^verbatim>\<open>x >> k\<close> is then the arithmetic shift and \<^verbatim>\<open>x << k\<close> wraps at 32 bits
  (\<open>k < 32\<close> at every use). \<^verbatim>\<open>a % b\<close> takes its sign from \<open>a\<close>. Storing a number into
  a \<^verbatim>\<open>Uint8Array\<close> keeps it modulo 256 (\<^verbatim>\<open>ToUint8\<close>).
\<close>

definition ToInt32 :: "int \<Rightarrow> int" where
  "ToInt32 x = (let m = x mod 2 ^ 32 in if 2 ^ 31 \<le> m then m - 2 ^ 32 else m)"

definition js_shr :: "int \<Rightarrow> nat \<Rightarrow> int" where
  "js_shr x k = ToInt32 x div 2 ^ k"

definition js_shl :: "int \<Rightarrow> nat \<Rightarrow> int" where
  "js_shl x k = ToInt32 (ToInt32 x * 2 ^ k)"

definition js_rem :: "int \<Rightarrow> int \<Rightarrow> int" where
  "js_rem a b = sgn a * (\<bar>a\<bar> mod \<bar>b\<bar>)"

definition ToUint8 :: "int \<Rightarrow> u8" where
  "ToUint8 x = word_of_int x"

subsection \<open>Strings: character classes, the two patterns, split and join\<close>

definition is_digit :: "char \<Rightarrow> bool" where
  "is_digit c = (c \<in> set ''0123456789'')"

definition is_hex :: "char \<Rightarrow> bool" where
  "is_hex c = (c \<in> set ''0123456789abcdefABCDEF'')"

definition digit_val :: "char \<Rightarrow> int" where
  "digit_val c = of_char c - 48"

definition hex_val :: "char \<Rightarrow> int" where
  "hex_val c =
     (if is_digit c then of_char c - 48
      else if c \<in> set ''abcdef'' then of_char c - 87
      else of_char c - 55)"

text \<open>
  One \<^verbatim>\<open>(?:[class]{1,m}sep)\<close> at the front of \<open>s\<close>: a run of one to \<open>m\<close> characters of the
  class and then the separator. The separator is not in the class, so the run is the
  longest one and nothing is left to backtracking. The result is the rest of the string.
\<close>

definition group_then :: "(char \<Rightarrow> bool) \<Rightarrow> nat \<Rightarrow> char \<Rightarrow> string \<Rightarrow> string option" where
  "group_then cls m sep s =
     (let g = takeWhile cls s; rest = dropWhile cls s
      in if 1 \<le> length g \<and> length g \<le> m \<and> rest \<noteq> [] \<and> hd rest = sep
         then Some (tl rest) else None)"

fun groups_then :: "nat \<Rightarrow> (char \<Rightarrow> bool) \<Rightarrow> nat \<Rightarrow> char \<Rightarrow> string \<Rightarrow> string option" where
  "groups_then 0 cls m sep s = Some s"
| "groups_then (Suc k) cls m sep s =
     (case group_then cls m sep s of
        None \<Rightarrow> None
      | Some rest \<Rightarrow> groups_then k cls m sep rest)"

text \<open>
  \<^verbatim>\<open>/^(?:\d{1,3}\.){3}\d{1,3}/\<close>: there is no \<^verbatim>\<open>$\<close>, so after the three groups one digit is
  enough and anything may follow.
\<close>

definition v4Pattern_test :: "string \<Rightarrow> bool" where
  "v4Pattern_test s =
     (case groups_then 3 is_digit 3 CHR ''.'' s of
        None \<Rightarrow> False
      | Some rest \<Rightarrow> rest \<noteq> [] \<and> is_digit (hd rest))"

text \<open>\<^verbatim>\<open>/^(?:[A-F0-9]{1,4}:){7}[A-F0-9]{1,4}$/i\<close>: the whole string.\<close>

definition v6Pattern_test :: "string \<Rightarrow> bool" where
  "v6Pattern_test s =
     (case groups_then 7 is_hex 4 CHR '':'' s of
        None \<Rightarrow> False
      | Some rest \<Rightarrow> 1 \<le> length rest \<and> length rest \<le> 4 \<and> list_all is_hex rest)"

text \<open>
  \<^verbatim>\<open>s.split(sep)\<close> for a separator of one character; the result is never empty, so the
  last case of the inner \<open>case\<close> is never taken.
\<close>

fun split_str :: "char \<Rightarrow> string \<Rightarrow> string list" where
  "split_str sep [] = [[]]"
| "split_str sep (c # cs) =
     (if c = sep then [] # split_str sep cs
      else (case split_str sep cs of
              p # ps \<Rightarrow> (c # p) # ps
            | [] \<Rightarrow> [[c]]))"

fun join :: "string \<Rightarrow> string list \<Rightarrow> string" where
  "join sep [] = []"
| "join sep [x] = x"
| "join sep (x # y # zs) = x @ sep @ join sep (y # zs)"

subsection \<open>Built-ins of the platform\<close>

text \<open>
  Two built-ins are modelled only where their result is plain, and are otherwise
  parameters of the model:
  \<^item> \<^verbatim>\<open>Number(s)\<close> stored into a \<^verbatim>\<open>Uint8Array\<close>. For a string of at most 15 decimal digits
    (the empty string too) the number is the decimal value, exactly, and the byte is that
    value modulo 256. For every other string (white space, signs, exponents, prefixes
    such as \<^verbatim>\<open>0x\<close>, longer digit strings that a double rounds, text that gives \<^verbatim>\<open>NaN\<close>)
    the byte is \<open>Number_other P s\<close>.
  \<^item> \<^verbatim>\<open>new TextDecoder().decode(bytes)\<close> is \<open>TextDecoder_decode P bytes\<close>.
\<close>

record platform =
  Number_other :: "string \<Rightarrow> u8"
  TextDecoder_decode :: "u8 list \<Rightarrow> string"

definition decimal_value :: "string \<Rightarrow> int" where
  "decimal_value s = foldl (\<lambda>a c. 10 * a + digit_val c) 0 s"

definition Number_u8 :: "platform \<Rightarrow> string \<Rightarrow> u8" where
  "Number_u8 P s =
     (if list_all is_digit s \<and> length s \<le> 15 then ToUint8 (decimal_value s)
      else Number_other P s)"

text \<open>
  \<^verbatim>\<open>parseInt(x, 16)\<close>: the value of the hexadecimal digits at the front of \<open>x\<close>. The code
  calls it on the groups of a string that matched \<^verbatim>\<open>v6Pattern\<close>, which are one to four
  hexadecimal digits, so neither white space, sign, \<^verbatim>\<open>0x\<close> nor \<^verbatim>\<open>NaN\<close> arises.
\<close>

definition parseInt16 :: "string \<Rightarrow> int" where
  "parseInt16 x = foldl (\<lambda>a c. 16 * a + hex_val c) 0 (takeWhile is_hex x)"

text \<open>\<^verbatim>\<open>new TextEncoder().encode(s)\<close>: the UTF-8 bytes, which represent the string here.\<close>

definition TextEncoder_encode :: "string \<Rightarrow> u8 list" where
  "TextEncoder_encode s = map of_char s"

text \<open>
  A platform for the examples below: it decodes each byte to the character of the same
  code, which is what the decoder does on ASCII text, and stores 0 for the strings whose
  \<^verbatim>\<open>Number\<close> is not modelled, which is what \<^verbatim>\<open>NaN\<close> gives.
\<close>

definition example_platform :: platform where
  "example_platform =
     \<lparr>Number_other = (\<lambda>_. 0), TextDecoder_decode = map (\<lambda>b. char_of (unat b))\<rparr>"

subsection \<open>The address codec\<close>

definition serializeAddress :: "platform \<Rightarrow> string \<Rightarrow> int \<Rightarrow> u8 list" where
  "serializeAddress P hostname port =
     (let portBytes = [js_shr port 8, js_rem port 256] in
      if v4Pattern_test hostname then
        [ToUint8 (AddrType_code IPv4)]
          @ map (Number_u8 P) (split_str CHR ''.'' hostname)
          @ map ToUint8 portBytes
      else if v6Pattern_test hostname then
        [ToUint8 (AddrType_code IPv6)]
          @ concat (map (\<lambda>x. let num = parseInt16 x
                               in [ToUint8 (js_shr num 8), ToUint8 (js_rem num 256)])
                        (split_str CHR '':'' hostname))
          @ map ToUint8 portBytes
      else
        (let bytes = TextEncoder_encode hostname in
         [ToUint8 (AddrType_code DomainName), ToUint8 (int (length bytes))]
           @ bytes
           @ map ToUint8 portBytes))"

text \<open>
  \<^verbatim>\<open>await\<close> of a step that may throw: an error ends the computation with the state the
  step left; a value goes on to the rest.
\<close>

definition await :: "(error + 'a) \<times> 's \<Rightarrow> ('a \<Rightarrow> 's \<Rightarrow> (error + 'b) \<times> 's) \<Rightarrow> (error + 'b) \<times> 's" where
  "await m f = (case m of (Inl e, s) \<Rightarrow> (Inl e, s) | (Inr a, s) \<Rightarrow> f a s)"

text \<open>
  The loop \<^verbatim>\<open>for (i = 0; i < buff.length; i += 2)\<close> over the 16 bytes that \<^verbatim>\<open>readN(r, 16)\<close>
  returned. A buffer of odd length would make the last sum \<^verbatim>\<open>NaN\<close> (\<^verbatim>\<open>buff[i + 1]\<close> is
  undefined); \<^verbatim>\<open>readN\<close> never returns one, and the model then stops.
\<close>

fun ipv6_parts :: "u8 list \<Rightarrow> int list" where
  "ipv6_parts (hi # lo # rest) = (js_shl (uint hi) 8 + uint lo) # ipv6_parts rest"
| "ipv6_parts [hi] = []"
| "ipv6_parts [] = []"

record Address =
  hostname :: string
  port :: int
  bytesRead :: int

text \<open>
  The function that \<^verbatim>\<open>deserializeAddress\<close> calls on the spot for the host name: it gives
  the text and the number of bytes after the type byte (\<^verbatim>\<open>value\<close> and \<^verbatim>\<open>length\<close>).
\<close>

definition deserializeAddress_hostname ::
  "platform \<Rightarrow> int \<Rightarrow> reader \<Rightarrow> (error + string \<times> int) \<times> reader" where
  "deserializeAddress_hostname P type r1 =
     (if type = AddrType_code IPv4 then
        await (readN r1 4) (\<lambda>parts r2.
          (Inr (join ''.'' (map (\<lambda>b. String_num (uint b)) parts), 4), r2))
      else if type = AddrType_code IPv6 then
        await (readN r1 16) (\<lambda>buff r2.
          (Inr (join '':'' (map String_num (ipv6_parts buff)), 16), r2))
      else if type = AddrType_code DomainName then
        await (readN r1 1) (\<lambda>l r2.
          let len = uint (l ! 0) in
          await (readN r2 (nat len)) (\<lambda>bytes r3.
            (Inr (TextDecoder_decode P bytes, len + 1), r3)))
      else (Inl (Error (''unexpected address type: '' @ String_num type)), r1))"

definition deserializeAddress :: "platform \<Rightarrow> reader \<Rightarrow> (error + Address) \<times> reader" where
  "deserializeAddress P r =
     await (readN r 1) (\<lambda>t r1.
       let type = uint (t ! 0) in
       await (deserializeAddress_hostname P type r1) (\<lambda>(val, len) r4.
         await (readN r4 2) (\<lambda>p r5.
           let portUpper = uint (p ! 0); portLower = uint (p ! 1);
               port = js_shl portUpper 8 + portLower
           in (Inr \<lparr>hostname = val, port = port, bytesRead = len + 3\<rparr>, r5))))"

subsection \<open>The connection\<close>

text \<open>
  The transport connection that \<^verbatim>\<open>Deno.connect\<close> returned: what the proxy will send
  (\<open>incoming\<close>), what has been written to it (\<open>written\<close>), how often \<^verbatim>\<open>close()\<close> was called,
  and whether \<^verbatim>\<open>close()\<close> throws. A failing \<^verbatim>\<open>Deno.connect\<close> or \<^verbatim>\<open>write\<close> is not modelled.
\<close>

record conn =
  incoming :: reader
  written :: "u8 list"
  closeCalls :: nat
  closeThrows :: bool

definition conn_readN :: "conn \<Rightarrow> nat \<Rightarrow> (error + u8 list) \<times> conn" where
  "conn_readN c n = (case readN (incoming c) n of (res, r') \<Rightarrow> (res, c\<lparr>incoming := r'\<rparr>))"

definition conn_deserializeAddress :: "platform \<Rightarrow> conn \<Rightarrow> (error + Address) \<times> conn" where
  "conn_deserializeAddress P c =
     (case deserializeAddress P (incoming c) of (res, r') \<Rightarrow> (res, c\<lparr>incoming := r'\<rparr>))"

definition writeAll :: "conn \<Rightarrow> u8 list \<Rightarrow> conn" where
  "writeAll c bytes = c\<lparr>written := written c @ bytes\<rparr>"

definition close :: "conn \<Rightarrow> (error + unit) \<times> conn" where
  "close c =
     (if closeThrows c then Inl (Error ''close'') else Inr (),
      c\<lparr>closeCalls := Suc (closeCalls c)\<rparr>)"

text \<open>\<^verbatim>\<open>try { conn.close(); } catch { /* ignore */ }\<close>\<close>

definition try_close :: "conn \<Rightarrow> conn" where
  "try_close c = snd (close c)"

subsection \<open>The client\<close>

record AuthConfig =
  username :: string
  password :: string

record ClientConfig =
  proxy_hostname :: string
  proxy_port :: "int option"
  credentials :: "AuthConfig option"

text \<open>The constructor: \<^verbatim>\<open>port: config.port ?? 1080\<close>.\<close>

definition Client :: "ClientConfig \<Rightarrow> ClientConfig" where
  "Client config =
     config\<lparr>proxy_port := Some (case proxy_port config of None \<Rightarrow> 1080 | Some p \<Rightarrow> p)\<rparr>"

text \<open>
  \<^verbatim>\<open>#connectAndRequest\<close>, from the connection on. \<^verbatim>\<open>"username" in this.#config\<close> is
  \<open>credentials config \<noteq> None\<close>. When the proxy chooses \<^verbatim>\<open>UsernamePassword\<close> although the
  client has no credentials, \<^verbatim>\<open>cfg.username\<close> is undefined and \<^verbatim>\<open>te.encode(undefined)\<close> the
  empty array.
\<close>

definition connectAndRequest ::
  "platform \<Rightarrow> ClientConfig \<Rightarrow> Command \<Rightarrow> string \<Rightarrow> int \<Rightarrow> conn \<Rightarrow> (error + Address) \<times> conn" where
  "connectAndRequest P config cmd host prt conn0 =
     (let methods = [AuthMethod_code NoAuth]
            @ (if credentials config \<noteq> None then [AuthMethod_code UsernamePassword] else []);
          c1 = writeAll conn0 (map ToUint8 ([SOCKS_VERSION, int (length methods)] @ methods))
      in
      await (conn_readN c1 2) (\<lambda>b c2.
        let negotiationVersion = uint (b ! 0); method = uint (b ! 1) in
        if negotiationVersion \<noteq> SOCKS_VERSION \<or> method = AuthMethod_code NoneAcceptable then
          (Inl (Error
             (if negotiationVersion \<noteq> SOCKS_VERSION
              then ''unsupported SOCKS version number: '' @ String_num negotiationVersion
              else ''no acceptable authentication methods'')),
           try_close c2)
        else
          await
            (if method = AuthMethod_code UsernamePassword then
               (let uname = (case credentials config of
                               None \<Rightarrow> [] | Some cfg \<Rightarrow> TextEncoder_encode (username cfg));
                    passwd = (case credentials config of
                               None \<Rightarrow> [] | Some cfg \<Rightarrow> TextEncoder_encode (password cfg));
                    c3 = writeAll c2
                           ([ToUint8 USERNAME_PASSWORD_AUTH_VERSION, ToUint8 (int (length uname))]
                              @ uname @ [ToUint8 (int (length passwd))] @ passwd)
                in
                await (conn_readN c3 2) (\<lambda>a c4.
                  let authVersion = uint (a ! 0); status = uint (a ! 1) in
                  if authVersion \<noteq> USERNAME_PASSWORD_AUTH_VERSION
                     \<or> status \<noteq> ReplyStatus_code Success then
                    (Inl (Error
                       (if authVersion \<noteq> USERNAME_PASSWORD_AUTH_VERSION
                        then ''unsupported authentication version number: ''
                               @ String_num authVersion
                        else ''authentication failed'')),
                     try_close c4)
                  else (Inr (), c4)))
             else (Inr (), c2))
            (\<lambda>_ c5.
               let c6 = writeAll c5
                          (map ToUint8 [SOCKS_VERSION, Command_code cmd, 0]
                             @ serializeAddress P host prt)
               in
               await (conn_readN c6 3) (\<lambda>rep c7.
                 let replyVersion = uint (rep ! 0); status = uint (rep ! 1) in
                 if replyVersion \<noteq> SOCKS_VERSION \<or> status \<noteq> ReplyStatus_code Success then
                   (Inl (Error
                      (if replyVersion \<noteq> SOCKS_VERSION
                       then ''unsupported SOCKS version number: '' @ String_num replyVersion
                       else decodeError status)),
                    try_close c7)
                 else conn_deserializeAddress P c7))))"

record NetAddr =
  addr_hostname :: string
  addr_port :: int
  transport :: string

record ConnectOptions =
  opt_hostname :: "string option"
  opt_port :: int

text \<open>
  The object that \<^verbatim>\<open>connect\<close> returns: the two addresses; its other members hand on to the
  connection, which is the state component of the result.
\<close>

record TcpConn =
  localAddr :: NetAddr
  remoteAddr :: NetAddr

definition connect ::
  "platform \<Rightarrow> ClientConfig \<Rightarrow> ConnectOptions \<Rightarrow> conn \<Rightarrow> (error + TcpConn) \<times> conn" where
  "connect P config opts conn0 =
     (let remote = \<lparr>addr_hostname = (case opt_hostname opts of None \<Rightarrow> ''127.0.0.1'' | Some h \<Rightarrow> h),
                     addr_port = opt_port opts, transport = ''tcp''\<rparr>
      in
      await (connectAndRequest P config Connect (addr_hostname remote) (addr_port remote) conn0)
        (\<lambda>a c.
           (Inr \<lparr>localAddr = \<lparr>addr_hostname = hostname a, addr_port = port a, transport = ''tcp''\<rparr>,
                 remoteAddr = remote\<rparr>, c)))"

subsection \<open>Properties of the byte reader\<close>

lemma readN_loop_enough:
  "n \<le> length out + length (concat r) \<Longrightarrow> length out \<le> n \<Longrightarrow>
   \<exists>r'. readN_loop r n out = (Inr (out @ take (n - length out) (concat r)), r')
       \<and> concat r' = drop (n - length out) (concat r)"
proof (induction r n out rule: readN_loop.induct)
  case (1 r n out)
  show ?case
  proof (cases "length out < n")
    case False
    with "1.prems" show ?thesis
      by (simp add: readN_loop.simps [of r n out])
  next
    case True
    show ?thesis
    proof (cases r)
      case Nil
      with True "1.prems" show ?thesis by simp
    next
      case (Cons c cs)
      let ?len = "n - length out"
      let ?r' = "if ?len < length c then drop ?len c # cs else cs"
      have rd: "read r ?len = (Some (take ?len c), ?r')"
        using Cons by (simp add: read_def)
      have step: "readN_loop r n out = readN_loop ?r' n (out @ take ?len c)"
        using True rd by (simp add: readN_loop.simps [of r n out])
      have pre1: "n \<le> length (out @ take ?len c) + length (concat ?r')"
        using "1.prems" Cons True by auto
      have pre2: "length (out @ take ?len c) \<le> n"
        using True by auto
      from "1.IH" [OF True rd [symmetric] refl pre1 pre2]
      obtain r' where
        r': "readN_loop ?r' n (out @ take ?len c)
               = (Inr ((out @ take ?len c) @ take (n - length (out @ take ?len c)) (concat ?r')), r')"
        and c': "concat r' = drop (n - length (out @ take ?len c)) (concat ?r')"
        by blast
      have e1: "(out @ take ?len c) @ take (n - length (out @ take ?len c)) (concat ?r')
                  = out @ take ?len (concat r)"
        using Cons True by (auto simp: min_def)
      have e2: "drop (n - length (out @ take ?len c)) (concat ?r') = drop ?len (concat r)"
        using Cons True by (auto simp: min_def)
      show ?thesis
        using step r' c' e1 e2 by simp
    qed
  qed
qed

lemma readN_loop_eof:
  "length out + length (concat r) < n \<Longrightarrow>
   readN_loop r n out =
     (Inl (UnexpectedEof (eof_message (n - (length out + length (concat r))))), [])"
proof (induction r n out rule: readN_loop.induct)
  case (1 r n out)
  from "1.prems" have lt: "length out < n" by simp
  show ?case
  proof (cases r)
    case Nil
    with lt show ?thesis
      by (simp add: readN_loop.simps [of "[]" n out] read_def)
  next
    case (Cons c cs)
    let ?len = "n - length out"
    from "1.prems" Cons have short: "length c < ?len" by simp
    have rd: "read r ?len = (Some c, cs)"
      using Cons short by (simp add: read_def)
    have step: "readN_loop r n out = readN_loop cs n (out @ c)"
      using lt rd by (simp add: readN_loop.simps [of r n out])
    have pre: "length (out @ c) + length (concat cs) < n"
      using "1.prems" Cons by simp
    have eq: "length (out @ c) + length (concat cs) = length out + length (concat r)"
      using Cons by simp
    have "readN_loop cs n (out @ c) =
       (Inl (UnexpectedEof (eof_message (n - (length (out @ c) + length (concat cs))))), [])"
      using "1.IH" [OF lt rd [symmetric] refl pre] .
    then show ?thesis
      unfolding step eq .
  qed
qed

lemma readN_enough:
  "n \<le> length (concat r) \<Longrightarrow>
   \<exists>r'. readN r n = (Inr (take n (concat r)), r') \<and> concat r' = drop n (concat r)"
  using readN_loop_enough [of n "[]" r] by (simp add: readN_def)

lemma readN_eof:
  "length (concat r) < n \<Longrightarrow>
   readN r n = (Inl (UnexpectedEof (eof_message (n - length (concat r)))), [])"
  using readN_loop_eof [of "[]" r n] by (simp add: readN_def)

lemma readN_Inr:
  assumes "readN r n = (Inr bytes, r')"
  shows "length bytes = n \<and> concat r = bytes @ concat r'"
proof (cases "n \<le> length (concat r)")
  case True
  from readN_enough [OF True] assms
  have "bytes = take n (concat r)" and "concat r' = drop n (concat r)" by auto
  with True show ?thesis by simp
next
  case False
  then have "length (concat r) < n" by simp
  from readN_eof [OF this] assms show ?thesis by simp
qed

lemma readN_Inl:
  assumes "readN r n = (Inl e, r')"
  shows "length (concat r) < n \<and> e = UnexpectedEof (eof_message (n - length (concat r))) \<and> r' = []"
proof (cases "n \<le> length (concat r)")
  case True
  from readN_enough [OF True] assms show ?thesis by auto
next
  case False
  then have "length (concat r) < n" by simp
  from readN_eof [OF this] assms this show ?thesis by simp
qed

lemma readN_prefix:
  assumes "concat r = bytes @ rest" and "n = length bytes"
  shows "\<exists>r'. readN r n = (Inr bytes, r') \<and> concat r' = rest"
  using readN_enough [of "length bytes" r] assms by simp

lemma await_Inr:
  "await m f = (Inr b, s') \<Longrightarrow> \<exists>a s. m = (Inr a, s) \<and> f a s = (Inr b, s')"
  by (auto simp: await_def split: prod.splits sum.splits)

lemma await_step: "await (Inr a, s) f = f a s"
  by (simp add: await_def)

lemma await_fail: "await (Inl e, s) f = (Inl e, s)"
  by (simp add: await_def)

lemma length1: "length xs = Suc 0 \<Longrightarrow> \<exists>a. xs = [a]"
  by (cases xs) auto

lemma length2: "length xs = 2 \<Longrightarrow> \<exists>a b. xs = [a, b]"
  by (auto simp: length_Suc_conv numeral_2_eq_2)

subsection \<open>The decimal rendering reads back as the number\<close>

lemma digit_char_props:
  assumes "0 \<le> d" and "d < 10"
  shows "is_digit (digit_char d) \<and> digit_val (digit_char d) = d"
proof -
  from assms have "d = 0 \<or> d = 1 \<or> d = 2 \<or> d = 3 \<or> d = 4 \<or> d = 5 \<or> d = 6 \<or> d = 7
      \<or> d = 8 \<or> d = 9" by arith
  then show ?thesis
    by (auto simp: is_digit_def digit_char_def digit_val_def)
qed

lemma decimal_value_snoc: "decimal_value (g @ [c]) = 10 * decimal_value g + digit_val c"
  by (simp add: decimal_value_def)

lemma String_digits_props:
  "0 \<le> n \<Longrightarrow> list_all is_digit (String_digits n) \<and> decimal_value (String_digits n) = n
     \<and> String_digits n \<noteq> []"
proof (induction n rule: String_digits.induct)
  case (1 n)
  show ?case
  proof (cases "n < 10")
    case True
    with "1.prems" digit_char_props [of n] show ?thesis
      by (simp add: String_digits.simps [of n] decimal_value_def)
  next
    case False
    then have "0 \<le> n div 10" by simp
    from "1.IH" [OF False this] digit_char_props [of "n mod 10"] False show ?thesis
      by (simp add: String_digits.simps [of n] decimal_value_snoc)
  qed
qed

lemma eof_digits:
  "String_num (int k) = String_digits (int k) \<and> list_all is_digit (String_num (int k))
   \<and> decimal_value (String_num (int k)) = int k"
  using String_digits_props [of "int k"] by (simp add: String_num_def)

subsection \<open>Claims about the byte reader\<close>

text \<open>
  C5. For every required count \<open>n\<close>, whatever the chunks in which the stream delivers its
  bytes: when the stream holds at least \<open>n\<close> bytes, \<open>readN\<close> returns exactly \<open>n\<close> bytes, the
  first \<open>n\<close> of the stream, and leaves the others in the stream; when the stream ends after
  \<open>k < n\<close> bytes, \<open>readN\<close> fails with the unexpected-end-of-stream error whose message is
  "reached EOF but we expected to read \<open>d\<close> more bytes", where \<open>d\<close> is the decimal numeral
  of \<open>n - k\<close>: a string of digits whose value is \<open>n - k\<close>.
\<close>

theorem readN_exact_or_eof:
  "(n \<le> length (concat r) \<longrightarrow>
      (\<exists>bytes r'. readN r n = (Inr bytes, r') \<and> length bytes = n
          \<and> bytes = take n (concat r) \<and> concat r' = drop n (concat r)))
   \<and> (length (concat r) < n \<longrightarrow>
      (\<exists>digits. readN r n
           = (Inl (UnexpectedEof
                (''reached EOF but we expected to read '' @ digits @ '' more bytes'')), [])
         \<and> digits = String_num (int (n - length (concat r)))
         \<and> list_all is_digit digits
         \<and> decimal_value digits = int (n - length (concat r))))"
proof (intro conjI impI)
  assume enough: "n \<le> length (concat r)"
  from readN_enough [OF enough] obtain r' where
    "readN r n = (Inr (take n (concat r)), r')" and "concat r' = drop n (concat r)"
    by blast
  with enough show "\<exists>bytes r'. readN r n = (Inr bytes, r') \<and> length bytes = n
      \<and> bytes = take n (concat r) \<and> concat r' = drop n (concat r)"
    by simp
next
  assume short: "length (concat r) < n"
  let ?k = "n - length (concat r)"
  have "readN r n
          = (Inl (UnexpectedEof
               (''reached EOF but we expected to read '' @ String_num (int ?k) @ '' more bytes'')), [])"
    using readN_eof [OF short] by (simp add: eof_message_def)
  with eof_digits [of ?k]
  show "\<exists>digits. readN r n
           = (Inl (UnexpectedEof
                (''reached EOF but we expected to read '' @ digits @ '' more bytes'')), [])
         \<and> digits = String_num (int (n - length (concat r)))
         \<and> list_all is_digit digits
         \<and> decimal_value digits = int (n - length (concat r))"
    by blast
qed

lemma example_counts: "String_num 1 = ''1'' \<and> String_num 12 = ''12''"
  by code_simp

theorem readN_exact_or_eof_witness:
  "(\<exists>r'. readN [[1, 2], [], [3, 4, 5]] 4 = (Inr [1, 2, 3, 4], r') \<and> concat r' = [5])
   \<and> readN [[5 :: u8]] 2
       = (Inl (UnexpectedEof ''reached EOF but we expected to read 1 more bytes''), [])
   \<and> readN [[1, 2 :: u8], [3, 4]] 16
       = (Inl (UnexpectedEof ''reached EOF but we expected to read 12 more bytes''), [])"
  using readN_exact_or_eof [of 4 "[[1, 2], [], [3, 4, 5]]"]
        readN_exact_or_eof [of 2 "[[5]]"]
        readN_exact_or_eof [of 16 "[[1, 2], [3, 4]]"]
        example_counts
  by simp

subsection \<open>The reply-status interpreter\<close>

text \<open>
  C6. \<open>decodeError\<close> is a function of the status alone; it maps 1 to the general-failure
  message, 2 to ruleset-denied, 3 to network-unreachable, 4 to host-unreachable,
  5 to connection-refused, 6 to TTL-expired, 7 to command-not-supported, 8 to
  address-type-not-supported, and every other value to "unknown SOCKS error".
\<close>

theorem decodeError_table:
  "decodeError 1 = ''general SOCKS server failure''
   \<and> decodeError 2 = ''connection not allowed by ruleset''
   \<and> decodeError 3 = ''Network unreachable''
   \<and> decodeError 4 = ''Host unreachable''
   \<and> decodeError 5 = ''Connection refused''
   \<and> decodeError 6 = ''TTL expired''
   \<and> decodeError 7 = ''Command not supported''
   \<and> decodeError 8 = ''Address type not supported''
   \<and> (status < 1 \<or> 8 < status \<longrightarrow> decodeError status = ''unknown SOCKS error'')"
  by (auto simp: decodeError_def)

theorem decodeError_table_witness:
  "(0 :: int) < 1 \<and> decodeError 0 = ''unknown SOCKS error''
   \<and> (8 :: int) < 255 \<and> decodeError 255 = ''unknown SOCKS error''"
  using decodeError_table [of 0] decodeError_table [of 255] by simp

subsection \<open>What a successful decoding has read\<close>

lemma deserializeAddress_inv:
  assumes "deserializeAddress P r = (Inr a, r')"
  shows "\<exists>t val len ph pl r1 r4.
           concat r = t # concat r1
         \<and> deserializeAddress_hostname P (uint t) r1 = (Inr (val, len), r4)
         \<and> concat r4 = [ph, pl] @ concat r'
         \<and> a = \<lparr>hostname = val, port = js_shl (uint ph) 8 + uint pl, bytesRead = len + 3\<rparr>"
proof -
  from await_Inr [OF assms [unfolded deserializeAddress_def]]
  obtain t r1 where rd1: "readN r 1 = (Inr t, r1)"
    and rest1: "(let type = uint (t ! 0) in
       await (deserializeAddress_hostname P type r1) (\<lambda>(val, len) r4.
         await (readN r4 2) (\<lambda>p r5.
           let portUpper = uint (p ! 0); portLower = uint (p ! 1);
               port = js_shl portUpper 8 + portLower
           in (Inr \<lparr>hostname = val, port = port, bytesRead = len + 3\<rparr>, r5)))) = (Inr a, r')"
    by blast
  from readN_Inr [OF rd1] have "length t = Suc 0" and c1': "concat r = t @ concat r1"
    by simp_all
  with length1 obtain b where t: "t = [b]" by blast
  from c1' t have c1: "concat r = b # concat r1" by simp
  from await_Inr [OF rest1 [unfolded Let_def]]
  obtain vl r4 where hn: "deserializeAddress_hostname P (uint (t ! 0)) r1 = (Inr vl, r4)"
    and rest2: "(case vl of (val, len) \<Rightarrow> \<lambda>r4.
         await (readN r4 2) (\<lambda>p r5.
           (Inr \<lparr>hostname = val, port = js_shl (uint (p ! 0)) 8 + uint (p ! 1), bytesRead = len + 3\<rparr>, r5))) r4
        = (Inr a, r')"
    by blast
  obtain val len where vl: "vl = (val, len)" by (cases vl)
  from await_Inr [OF rest2 [unfolded vl prod.case]]
  obtain p where rd2: "readN r4 2 = (Inr p, r')"
    and a: "a = \<lparr>hostname = val, port = js_shl (uint (p ! 0)) 8 + uint (p ! 1), bytesRead = len + 3\<rparr>"
    by blast
  from readN_Inr [OF rd2] have "length p = 2" and c4': "concat r4 = p @ concat r'"
    by simp_all
  with length2 obtain ph pl where p: "p = [ph, pl]" by blast
  from c4' p have c4: "concat r4 = [ph, pl] @ concat r'" by simp
  from hn t vl have hn': "deserializeAddress_hostname P (uint b) r1 = (Inr (val, len), r4)" by simp
  from a p have a': "a = \<lparr>hostname = val, port = js_shl (uint ph) 8 + uint pl, bytesRead = len + 3\<rparr>"
    by simp
  from c1 hn' c4 a' show ?thesis by blast
qed

lemma hostname_inv:
  assumes "deserializeAddress_hostname P type r1 = (Inr (val, len), r4)"
  shows "type = 1 \<and> len = 4 \<and> (\<exists>parts. length parts = 4 \<and> concat r1 = parts @ concat r4
            \<and> val = join ''.'' (map (\<lambda>b. String_num (uint b)) parts))
       \<or> type = 4 \<and> len = 16 \<and> (\<exists>buff. length buff = 16 \<and> concat r1 = buff @ concat r4
            \<and> val = join '':'' (map String_num (ipv6_parts buff)))
       \<or> type = 3 \<and> (\<exists>l bytes. len = uint l + 1 \<and> length bytes = unat l
            \<and> concat r1 = l # bytes @ concat r4 \<and> val = TextDecoder_decode P bytes)"
proof -
  consider "type = 1" | "type = 4" | "type = 3" | "type \<noteq> 1 \<and> type \<noteq> 4 \<and> type \<noteq> 3" by blast
  then show ?thesis
  proof cases
    case 1
    with assms have "await (readN r1 4) (\<lambda>parts r2.
          (Inr (join ''.'' (map (\<lambda>b. String_num (uint b)) parts), 4 :: int), r2)) = (Inr (val, len), r4)"
      by (simp add: deserializeAddress_hostname_def)
    from await_Inr [OF this] obtain parts where rd: "readN r1 4 = (Inr parts, r4)"
      and v: "val = join ''.'' (map (\<lambda>b. String_num (uint b)) parts)" and l: "len = 4"
      by auto
    from readN_Inr [OF rd] 1 v l show ?thesis by auto
  next
    case 2
    with assms have "await (readN r1 16) (\<lambda>buff r2.
          (Inr (join '':'' (map String_num (ipv6_parts buff)), 16 :: int), r2)) = (Inr (val, len), r4)"
      by (simp add: deserializeAddress_hostname_def)
    from await_Inr [OF this] obtain buff where rd: "readN r1 16 = (Inr buff, r4)"
      and v: "val = join '':'' (map String_num (ipv6_parts buff))" and l: "len = 16"
      by auto
    from readN_Inr [OF rd] 2 v l show ?thesis by auto
  next
    case 3
    with assms have "await (readN r1 1) (\<lambda>l r2.
          let len = uint (l ! 0) in
          await (readN r2 (nat len)) (\<lambda>bytes r3.
            (Inr (TextDecoder_decode P bytes, len + 1), r3))) = (Inr (val, len), r4)"
      by (simp add: deserializeAddress_hostname_def)
    from await_Inr [OF this] obtain l r2 where rd1: "readN r1 1 = (Inr l, r2)"
      and rest0: "(let len = uint (l ! 0) in
          await (readN r2 (nat len)) (\<lambda>bytes r3.
            (Inr (TextDecoder_decode P bytes, len + 1), r3))) = (Inr (val, len), r4)"
      by blast
    from rest0 have rest: "await (readN r2 (nat (uint (l ! 0)))) (\<lambda>bytes r3.
            (Inr (TextDecoder_decode P bytes, uint (l ! 0) + 1), r3)) = (Inr (val, len), r4)"
      unfolding Let_def .
    from readN_Inr [OF rd1] obtain b where l: "l = [b]" and c1: "concat r1 = [b] @ concat r2"
      using length1 by fastforce
    from await_Inr [OF rest] l obtain bytes where rd2: "readN r2 (nat (uint b)) = (Inr bytes, r4)"
      and v: "val = TextDecoder_decode P bytes" and ln: "len = uint b + 1"
      by auto
    from readN_Inr [OF rd2] have "length bytes = unat b" and "concat r2 = bytes @ concat r4"
      by simp_all
    with 3 c1 v ln show ?thesis by auto
  next
    case 4
    with assms show ?thesis
      by (simp add: deserializeAddress_hostname_def)
  qed
qed

lemma deserializeAddress_bad_type:
  assumes "concat r = t # rest" and "uint t \<noteq> 1" and "uint t \<noteq> 3" and "uint t \<noteq> 4"
  shows "\<exists>r1. deserializeAddress P r
           = (Inl (Error (''unexpected address type: '' @ String_num (uint t))), r1)
         \<and> concat r1 = rest"
proof -
  from readN_prefix [of r "[t]" rest 1] assms(1)
  obtain r1 where rd: "readN r 1 = (Inr [t], r1)" and c1: "concat r1 = rest" by auto
  have "deserializeAddress_hostname P (uint t) r1
          = (Inl (Error (''unexpected address type: '' @ String_num (uint t))), r1)"
    using assms(2-4) by (simp add: deserializeAddress_hostname_def)
  then have "deserializeAddress P r
          = (Inl (Error (''unexpected address type: '' @ String_num (uint t))), r1)"
    unfolding deserializeAddress_def rd await_step Let_def
    by (simp add: await_fail)
  with c1 show ?thesis by blast
qed

text \<open>
  C9. Whenever \<open>deserializeAddress\<close> succeeds, the stream began with a type byte 1, 4 or 3
  and the count it returns is 7 for IPv4, 19 for IPv6 and \<open>L + 4\<close> for a domain name with
  length byte \<open>L\<close>; this is the number of bytes it took from the stream. When the first
  byte of the stream is none of 1, 3, 4, it fails with the error "unexpected address
  type" that carries the byte's value.
\<close>

theorem deserializeAddress_bytesRead:
  "(deserializeAddress P r = (Inr a, r') \<longrightarrow>
      (\<exists>t rest. concat r = t # rest
         \<and> (uint t = 1 \<and> bytesRead a = 7
            \<or> uint t = 4 \<and> bytesRead a = 19
            \<or> uint t = 3 \<and> (\<exists>l rest'. rest = l # rest' \<and> bytesRead a = uint l + 4)))
      \<and> int (length (concat r)) = bytesRead a + int (length (concat r')))
   \<and> (concat q = t # rest \<and> uint t \<noteq> 1 \<and> uint t \<noteq> 3 \<and> uint t \<noteq> 4 \<longrightarrow>
        fst (deserializeAddress P q)
          = Inl (Error (''unexpected address type: '' @ String_num (uint t))))"
proof (intro conjI impI)
  assume ok: "deserializeAddress P r = (Inr a, r')"
  from deserializeAddress_inv [OF ok] obtain t val len ph pl r1 r4 where
    c: "concat r = t # concat r1"
    and hn: "deserializeAddress_hostname P (uint t) r1 = (Inr (val, len), r4)"
    and c4: "concat r4 = [ph, pl] @ concat r'"
    and a: "a = \<lparr>hostname = val, port = js_shl (uint ph) 8 + uint pl, bytesRead = len + 3\<rparr>"
    by blast
  from hostname_inv [OF hn] c c4 a
  show "\<exists>t rest. concat r = t # rest
         \<and> (uint t = 1 \<and> bytesRead a = 7
            \<or> uint t = 4 \<and> bytesRead a = 19
            \<or> uint t = 3 \<and> (\<exists>l rest'. rest = l # rest' \<and> bytesRead a = uint l + 4))"
    by auto
  from hostname_inv [OF hn] c c4 a
  show "int (length (concat r)) = bytesRead a + int (length (concat r'))"
    by auto
next
  assume "concat q = t # rest \<and> uint t \<noteq> 1 \<and> uint t \<noteq> 3 \<and> uint t \<noteq> 4"
  with deserializeAddress_bad_type [of q t rest P]
  show "fst (deserializeAddress P q)
          = Inl (Error (''unexpected address type: '' @ String_num (uint t)))"
    by auto
qed

lemma example_ipv4_decoded:
  "deserializeAddress example_platform [[1, 127], [0, 0, 1, 31, 144, 9]]
     = (Inr \<lparr>hostname = ''127.0.0.1'', port = 8080, bytesRead = 7\<rparr>, [[9]])"
  by code_simp

lemma example_bad_type_message:
  "''unexpected address type: '' @ String_num (uint (2 :: u8)) = ''unexpected address type: 2''"
  by code_simp

theorem deserializeAddress_bytesRead_witness:
  "(\<exists>a r'. deserializeAddress example_platform [[1, 127], [0, 0, 1, 31, 144, 9]] = (Inr a, r')
      \<and> bytesRead a = 7
      \<and> int (length (concat [[1, 127], [0, 0, 1, 31, 144, 9 :: u8]]))
           = bytesRead a + int (length (concat r')))
   \<and> fst (deserializeAddress example_platform [[2, 0]]) = Inl (Error ''unexpected address type: 2'')"
  using deserializeAddress_bytesRead [of example_platform "[[1, 127], [0, 0, 1, 31, 144, 9]]"
          "\<lparr>hostname = ''127.0.0.1'', port = 8080, bytesRead = 7\<rparr>" "[[9]]" "[[2, 0]]" 2 "[0]"]
        example_ipv4_decoded example_bad_type_message
  by simp

subsection \<open>What the decoder makes of well-formed bytes\<close>

lemma readN_prefix_at:
  assumes "concat r = bytes @ rest" and "length bytes = n"
  shows "\<exists>r'. readN r n = (Inr bytes, r') \<and> concat r' = rest"
  using readN_prefix [OF assms(1)] assms(2) by simp

lemma js_shl_byte: "js_shl (uint (b :: u8)) 8 = uint b * 256"
proof -
  have "0 \<le> uint b" and "uint b < 256"
    using uint_lt2p [of b] by simp_all
  then show ?thesis
    by (simp add: js_shl_def ToInt32_def Let_def)
qed

lemma hostname_ipv6:
  assumes "concat r1 = buff @ rest" and "length buff = 16"
  shows "\<exists>r4. deserializeAddress_hostname P 4 r1
           = (Inr (join '':'' (map String_num (ipv6_parts buff)), 16), r4) \<and> concat r4 = rest"
proof -
  from readN_prefix_at [OF assms] obtain r4 where
    "readN r1 16 = (Inr buff, r4)" and "concat r4 = rest" by blast
  then show ?thesis
    by (simp add: deserializeAddress_hostname_def await_step)
qed

lemma hostname_ipv4:
  assumes "concat r1 = parts @ rest" and "length parts = 4"
  shows "\<exists>r4. deserializeAddress_hostname P 1 r1
           = (Inr (join ''.'' (map (\<lambda>b. String_num (uint b)) parts), 4), r4) \<and> concat r4 = rest"
proof -
  from readN_prefix_at [OF assms] obtain r4 where
    "readN r1 4 = (Inr parts, r4)" and "concat r4 = rest" by blast
  then show ?thesis
    by (simp add: deserializeAddress_hostname_def await_step)
qed

lemma hostname_domain:
  assumes "concat r1 = l # bytes @ rest" and "length bytes = unat l"
  shows "\<exists>r4. deserializeAddress_hostname P 3 r1
           = (Inr (TextDecoder_decode P bytes, uint l + 1), r4) \<and> concat r4 = rest"
proof -
  from readN_prefix_at [of r1 "[l]" "bytes @ rest" 1] assms(1) obtain r2 where
    rd1: "readN r1 1 = (Inr [l], r2)" and c2: "concat r2 = bytes @ rest" by auto
  from readN_prefix_at [OF c2 assms(2)] obtain r4 where
    rd2: "readN r2 (unat l) = (Inr bytes, r4)" and c4: "concat r4 = rest" by blast
  have "deserializeAddress_hostname P 3 r1 = (Inr (TextDecoder_decode P bytes, uint l + 1), r4)"
    unfolding deserializeAddress_hostname_def rd1 await_step
    by (simp add: Let_def rd2 await_step)
  with c4 show ?thesis by blast
qed

lemma deserializeAddress_forward:
  assumes c: "concat r = t # tl0"
      and h: "\<And>r1. concat r1 = tl0 \<Longrightarrow>
                \<exists>r4. deserializeAddress_hostname P (uint t) r1 = (Inr (val, len), r4)
                    \<and> concat r4 = [ph, pl] @ rest"
  shows "\<exists>r'. deserializeAddress P r
           = (Inr \<lparr>hostname = val, port = uint ph * 256 + uint pl, bytesRead = len + 3\<rparr>, r')
         \<and> concat r' = rest"
proof -
  from readN_prefix_at [of r "[t]" tl0 1] c obtain r1 where
    rd1: "readN r 1 = (Inr [t], r1)" and c1: "concat r1 = tl0" by auto
  from h [OF c1] obtain r4 where
    hn: "deserializeAddress_hostname P (uint t) r1 = (Inr (val, len), r4)"
    and c4: "concat r4 = [ph, pl] @ rest" by blast
  from readN_prefix_at [OF c4, of 2] obtain r' where
    rd2: "readN r4 2 = (Inr [ph, pl], r')" and c': "concat r' = rest" by auto
  have "deserializeAddress P r
           = (Inr \<lparr>hostname = val, port = uint ph * 256 + uint pl, bytesRead = len + 3\<rparr>, r')"
    unfolding deserializeAddress_def rd1 await_step
    by (simp add: Let_def hn await_step rd2 js_shl_byte)
  with c' show ?thesis by blast
qed

lemma deserializeAddress_ipv6:
  assumes "concat r = 4 # buff @ [ph, pl] @ rest" and "length buff = 16"
  shows "\<exists>r'. deserializeAddress P r
           = (Inr \<lparr>hostname = join '':'' (map String_num (ipv6_parts buff)),
                   port = uint ph * 256 + uint pl, bytesRead = 19\<rparr>, r')
         \<and> concat r' = rest"
  using deserializeAddress_forward [OF assms(1), of P "join '':'' (map String_num (ipv6_parts buff))" 16 ph pl rest]
        hostname_ipv6 [OF _ assms(2), of _ "[ph, pl] @ rest" P]
  by simp

lemma deserializeAddress_ipv4:
  assumes "concat r = 1 # parts @ [ph, pl] @ rest" and "length parts = 4"
  shows "\<exists>r'. deserializeAddress P r
           = (Inr \<lparr>hostname = join ''.'' (map (\<lambda>b. String_num (uint b)) parts),
                   port = uint ph * 256 + uint pl, bytesRead = 7\<rparr>, r')
         \<and> concat r' = rest"
  using deserializeAddress_forward [OF assms(1), of P "join ''.'' (map (\<lambda>b. String_num (uint b)) parts)" 4 ph pl rest]
        hostname_ipv4 [OF _ assms(2), of _ "[ph, pl] @ rest" P]
  by simp

lemma deserializeAddress_domain:
  assumes "concat r = 3 # l # bytes @ [ph, pl] @ rest" and "length bytes = unat l"
  shows "\<exists>r'. deserializeAddress P r
           = (Inr \<lparr>hostname = TextDecoder_decode P bytes,
                   port = uint ph * 256 + uint pl, bytesRead = uint l + 4\<rparr>, r')
         \<and> concat r' = rest"
proof -
  have h: "\<exists>r4. deserializeAddress_hostname P (uint (3 :: u8)) r1
                 = (Inr (TextDecoder_decode P bytes, uint l + 1), r4)
               \<and> concat r4 = [ph, pl] @ rest"
    if "concat r1 = l # bytes @ [ph, pl] @ rest" for r1
    using hostname_domain [OF that assms(2), of P] by simp
  have e: "uint l + 1 + 3 = uint l + 4" by simp
  from deserializeAddress_forward [OF assms(1) h] show ?thesis unfolding e .
qed

subsection \<open>Bytes of the encoder\<close>

lemma uint_ToUint8: "uint (ToUint8 x) = x mod 256"
  by (simp add: ToUint8_def uint_word_of_int)

lemma port_bytes:
  assumes "0 \<le> prt" and "prt < 65536"
  shows "uint (ToUint8 (js_shr prt 8)) = prt div 256"
    and "uint (ToUint8 (js_rem prt 256)) = prt mod 256"
proof -
  from assms have t: "ToInt32 prt = prt" by (simp add: ToInt32_def Let_def)
  from assms have "prt div 256 < 256" by simp
  moreover from assms have "0 \<le> prt div 256" by simp
  ultimately show "uint (ToUint8 (js_shr prt 8)) = prt div 256"
    by (simp add: uint_ToUint8 js_shr_def t)
  from assms show "uint (ToUint8 (js_rem prt 256)) = prt mod 256"
    by (cases "prt = 0") (simp_all add: uint_ToUint8 js_rem_def)
qed

lemma takeWhile_group:
  "list_all cls g \<Longrightarrow> \<not> cls sep \<Longrightarrow>
   takeWhile cls (g @ sep # rest) = g \<and> dropWhile cls (g @ sep # rest) = sep # rest"
  by (induction g) auto

lemma group_then_ok:
  "list_all cls g \<Longrightarrow> \<not> cls sep \<Longrightarrow> 1 \<le> length g \<Longrightarrow> length g \<le> m \<Longrightarrow>
   group_then cls m sep (g @ sep # rest) = Some rest"
  by (simp add: group_then_def takeWhile_group)

lemma split_str_group:
  "sep \<notin> set g \<Longrightarrow> split_str sep (g @ sep # rest) = g # split_str sep rest"
  by (induction g) auto

lemma split_str_last: "sep \<notin> set g \<Longrightarrow> split_str sep g = [g]"
  by (induction g) auto

lemma dot_not_digit: "\<not> is_digit CHR ''.''"
  by (simp add: is_digit_def)

lemma digits_no_dot: "list_all is_digit g \<Longrightarrow> CHR ''.'' \<notin> set g"
  using dot_not_digit by (auto simp: list_all_iff)

lemma v4Pattern_quad:
  assumes "list_all is_digit g1" "1 \<le> length g1" "length g1 \<le> 3"
      and "list_all is_digit g2" "1 \<le> length g2" "length g2 \<le> 3"
      and "list_all is_digit g3" "1 \<le> length g3" "length g3 \<le> 3"
      and "list_all is_digit g4" "1 \<le> length g4"
  shows "v4Pattern_test (g1 @ CHR ''.'' # g2 @ CHR ''.'' # g3 @ CHR ''.'' # g4 @ rest)"
proof -
  have "groups_then 3 is_digit 3 CHR ''.'' (g1 @ CHR ''.'' # g2 @ CHR ''.'' # g3 @ CHR ''.'' # g4 @ rest)
          = Some (g4 @ rest)"
    using assms by (simp add: numeral_3_eq_3 group_then_ok dot_not_digit)
  moreover from assms(10,11) have "g4 @ rest \<noteq> [] \<and> is_digit (hd (g4 @ rest))"
    by (cases g4) auto
  ultimately show ?thesis by (simp add: v4Pattern_test_def)
qed

lemma decimal_digits_Number:
  "list_all is_digit g \<Longrightarrow> length g \<le> 3 \<Longrightarrow> Number_u8 P g = ToUint8 (decimal_value g)"
  by (simp add: Number_u8_def)

lemma serializeAddress_quad:
  assumes "list_all is_digit g1" "1 \<le> length g1" "length g1 \<le> 3"
      and "list_all is_digit g2" "1 \<le> length g2" "length g2 \<le> 3"
      and "list_all is_digit g3" "1 \<le> length g3" "length g3 \<le> 3"
      and "list_all is_digit g4" "1 \<le> length g4" "length g4 \<le> 3"
  shows "serializeAddress P (g1 @ ''.'' @ g2 @ ''.'' @ g3 @ ''.'' @ g4) prt
           = [1, ToUint8 (decimal_value g1), ToUint8 (decimal_value g2),
              ToUint8 (decimal_value g3), ToUint8 (decimal_value g4),
              ToUint8 (js_shr prt 8), ToUint8 (js_rem prt 256)]"
proof -
  have v4: "v4Pattern_test (g1 @ CHR ''.'' # g2 @ CHR ''.'' # g3 @ CHR ''.'' # g4)"
    using v4Pattern_quad [OF assms(1-11), of "[]"] by simp
  have sp: "split_str CHR ''.'' (g1 @ CHR ''.'' # g2 @ CHR ''.'' # g3 @ CHR ''.'' # g4)
              = [g1, g2, g3, g4]"
    using assms(1,4,7,10) by (simp add: split_str_group split_str_last digits_no_dot)
  show ?thesis
    using assms by (simp add: serializeAddress_def Let_def v4 sp decimal_digits_Number ToUint8_def)
qed

lemma serializeAddress_domain:
  assumes "\<not> v4Pattern_test h" and "\<not> v6Pattern_test h"
  shows "serializeAddress P h prt
           = [3, ToUint8 (int (length (TextEncoder_encode h)))] @ TextEncoder_encode h
               @ [ToUint8 (js_shr prt 8), ToUint8 (js_rem prt 256)]"
  using assms by (simp add: serializeAddress_def Let_def ToUint8_def)

subsection \<open>Decoding what the encoder wrote: domain names and dotted quads\<close>

lemma port_roundtrip:
  assumes "0 \<le> prt" and "prt < 65536"
  shows "uint (ToUint8 (js_shr prt 8)) * 256 + uint (ToUint8 (js_rem prt 256)) = prt"
  using port_bytes [OF assms] by simp

lemma domain_roundtrip:
  assumes "\<not> v4Pattern_test h" and "\<not> v6Pattern_test h"
      and "length (TextEncoder_encode h) \<le> 255"
      and "TextDecoder_decode P (TextEncoder_encode h) = h"
      and "0 \<le> prt" and "prt < 65536"
      and "concat r = serializeAddress P h prt @ rest"
  shows "\<exists>r'. deserializeAddress P r
           = (Inr \<lparr>hostname = h, port = prt,
                   bytesRead = int (length (TextEncoder_encode h)) + 4\<rparr>, r')
         \<and> concat r' = rest"
proof -
  let ?l = "ToUint8 (int (length (TextEncoder_encode h)))"
  from assms(3) have ul: "uint ?l = int (length (TextEncoder_encode h))"
    by (simp add: uint_ToUint8)
  then have len: "length (TextEncoder_encode h) = unat ?l"
    by (simp add: unat_eq_nat_uint)
  have c: "concat r = 3 # ?l # TextEncoder_encode h
             @ [ToUint8 (js_shr prt 8), ToUint8 (js_rem prt 256)] @ rest"
    using assms(7) by (simp add: serializeAddress_domain [OF assms(1,2)])
  from deserializeAddress_domain [OF c len, of P] assms(4) port_roundtrip [OF assms(5,6)] ul
  show ?thesis by simp
qed

lemma String_digits_length:
  assumes "0 \<le> n" and "n < 1000"
  shows "length (String_digits n) \<le> 3"
proof -
  have a: "n div 10 div 10 < 10" using assms by simp
  show ?thesis
    using assms a
    by (simp add: String_digits.simps [of n] String_digits.simps [of "n div 10"]
          String_digits.simps [of "n div 10 div 10"])
qed

lemma octet_text:
  "list_all is_digit (String_num (uint (b :: u8))) \<and> 1 \<le> length (String_num (uint b))
   \<and> length (String_num (uint b)) \<le> 3 \<and> decimal_value (String_num (uint b)) = uint b"
proof -
  have n: "0 \<le> uint b" and "uint b < 256" using uint_lt2p [of b] by simp_all
  then have "uint b < 1000" by simp
  from String_digits_props [OF n] String_digits_length [OF n this] n show ?thesis
    by (cases "String_digits (uint b)") (simp_all add: String_num_def)
qed

lemma ipv4_roundtrip:
  assumes "h = join ''.'' (map (\<lambda>b. String_num (uint b)) [a, b, c, d :: u8])"
      and "0 \<le> prt" and "prt < 65536"
      and "concat r = serializeAddress P h prt @ rest"
  shows "\<exists>r'. deserializeAddress P r = (Inr \<lparr>hostname = h, port = prt, bytesRead = 7\<rparr>, r')
         \<and> concat r' = rest"
proof -
  let ?s = "\<lambda>b :: u8. String_num (uint b)"
  have h: "h = ?s a @ ''.'' @ ?s b @ ''.'' @ ?s c @ ''.'' @ ?s d"
    using assms(1) by simp
  have ser: "serializeAddress P h prt
           = [1, ToUint8 (decimal_value (?s a)), ToUint8 (decimal_value (?s b)),
              ToUint8 (decimal_value (?s c)), ToUint8 (decimal_value (?s d)),
              ToUint8 (js_shr prt 8), ToUint8 (js_rem prt 256)]"
    unfolding h using octet_text [of a] octet_text [of b] octet_text [of c] octet_text [of d]
    by (intro serializeAddress_quad) simp_all
  have oct: "ToUint8 (decimal_value (?s x)) = x" for x
    using octet_text [of x] by (simp add: ToUint8_def)
  have cc: "concat r = 1 # [a, b, c, d] @ [ToUint8 (js_shr prt 8), ToUint8 (js_rem prt 256)] @ rest"
    using assms(4) by (simp add: ser oct)
  from deserializeAddress_ipv4 [OF cc, of P] port_roundtrip [OF assms(2,3)] assms(1)
  show ?thesis by simp
qed

subsection \<open>Decoding what the encoder wrote: IPv6 addresses\<close>

text \<open>
  For every host name that matches \<^verbatim>\<open>v6Pattern\<close> the port and the eight 16-bit values
  come back, and the host name that the decoder returns is their rendering in decimal.
\<close>

lemma group_then_Some:
  assumes "group_then cls m sep s = Some rest"
  shows "\<exists>g. s = g @ sep # rest \<and> list_all cls g \<and> 1 \<le> length g \<and> length g \<le> m"
proof -
  let ?g = "takeWhile cls s" and ?d = "dropWhile cls s"
  from assms have ok: "1 \<le> length ?g" "length ?g \<le> m" "?d \<noteq> []" "hd ?d = sep" "tl ?d = rest"
    by (auto simp: group_then_def Let_def split: if_splits)
  then have "?d = sep # rest" by (cases ?d) auto
  then have "s = ?g @ sep # rest"
    using takeWhile_dropWhile_id [of cls s] by simp
  moreover have "list_all cls ?g"
    by (auto simp: list_all_iff dest: set_takeWhileD)
  ultimately show ?thesis using ok(1,2) by blast
qed

lemma groups_then_Some:
  "groups_then k cls m sep s = Some rest \<Longrightarrow>
   \<exists>gs. length gs = k \<and> s = concat (map (\<lambda>g. g @ [sep]) gs) @ rest
      \<and> (\<forall>g \<in> set gs. list_all cls g \<and> 1 \<le> length g \<and> length g \<le> m)"
proof (induction k arbitrary: s)
  case 0
  then show ?case by simp
next
  case (Suc k)
  from Suc.prems obtain mid where g: "group_then cls m sep s = Some mid"
    and rest: "groups_then k cls m sep mid = Some rest"
    by (auto split: option.splits)
  from group_then_Some [OF g] obtain g0 where
    s: "s = g0 @ sep # mid" and g0: "list_all cls g0" "1 \<le> length g0" "length g0 \<le> m"
    by blast
  from Suc.IH [OF rest] obtain gs where
    gs: "length gs = k" "mid = concat (map (\<lambda>g. g @ [sep]) gs) @ rest"
        "\<forall>g \<in> set gs. list_all cls g \<and> 1 \<le> length g \<and> length g \<le> m"
    by blast
  have "length (g0 # gs) = Suc k" using gs(1) by simp
  moreover have "s = concat (map (\<lambda>g. g @ [sep]) (g0 # gs)) @ rest"
    using s gs(2) by simp
  moreover have "\<forall>g \<in> set (g0 # gs). list_all cls g \<and> 1 \<le> length g \<and> length g \<le> m"
    using g0 gs(3) by simp
  ultimately show ?case by blast
qed

lemma split_str_groups:
  assumes "\<forall>g \<in> set gs. sep \<notin> set g" and "sep \<notin> set lst"
  shows "split_str sep (concat (map (\<lambda>g. g @ [sep]) gs) @ lst) = gs @ [lst]"
  using assms by (induction gs) (simp_all add: split_str_last split_str_group)

lemma colon_not_hex: "\<not> is_hex CHR '':''"
  by (simp add: is_hex_def)

lemma dot_not_hex: "\<not> is_hex CHR ''.''"
  by (simp add: is_hex_def)

lemma hex_no_sep: "list_all is_hex g \<Longrightarrow> CHR '':'' \<notin> set g \<and> CHR ''.'' \<notin> set g"
  using colon_not_hex dot_not_hex by (auto simp: list_all_iff)

lemma v6Pattern_groups:
  assumes "v6Pattern_test h"
  shows "\<exists>gs. length gs = 8 \<and> split_str CHR '':'' h = gs \<and> CHR ''.'' \<notin> set h
      \<and> (\<forall>g \<in> set gs. list_all is_hex g \<and> 1 \<le> length g \<and> length g \<le> 4)"
proof -
  from assms obtain lst where
    g7: "groups_then 7 is_hex 4 CHR '':'' h = Some lst"
    and lst: "1 \<le> length lst" "length lst \<le> 4" "list_all is_hex lst"
    by (auto simp: v6Pattern_test_def split: option.splits)
  from groups_then_Some [OF g7] obtain gs where
    gs: "length gs = 7" "h = concat (map (\<lambda>g. g @ [CHR '':'']) gs) @ lst"
        "\<forall>g \<in> set gs. list_all is_hex g \<and> 1 \<le> length g \<and> length g \<le> 4"
    by blast
  have sp: "split_str CHR '':'' h = gs @ [lst]"
    unfolding gs(2) using gs(3) lst(3) hex_no_sep by (intro split_str_groups) auto
  have nodot: "CHR ''.'' \<notin> set h"
    unfolding gs(2) using gs(3) lst(3) hex_no_sep by auto
  have "length (gs @ [lst]) = 8" using gs(1) by simp
  moreover have "\<forall>g \<in> set (gs @ [lst]). list_all is_hex g \<and> 1 \<le> length g \<and> length g \<le> 4"
    using gs(3) lst by simp
  ultimately show ?thesis using sp nodot by blast
qed

lemma v4Pattern_has_dot:
  assumes "v4Pattern_test h"
  shows "CHR ''.'' \<in> set h"
proof -
  from assms obtain r where "groups_then 3 is_digit 3 CHR ''.'' h = Some r"
    by (auto simp: v4Pattern_test_def split: option.splits)
  then obtain mid where "group_then is_digit 3 CHR ''.'' h = Some mid"
    by (auto simp: numeral_3_eq_3 split: option.splits)
  from group_then_Some [OF this] show ?thesis by auto
qed

lemma hex_vals:
  "list_all (\<lambda>c. 0 \<le> hex_val c \<and> hex_val c < 16) ''0123456789abcdefABCDEF''"
  by code_simp

lemma hex_val_bound: "is_hex c \<Longrightarrow> 0 \<le> hex_val c \<and> hex_val c < 16"
  using hex_vals unfolding is_hex_def list_all_iff by blast

lemma hex_value_bound:
  "list_all is_hex g \<Longrightarrow>
   0 \<le> foldl (\<lambda>a c. 16 * a + hex_val c) 0 g \<and> foldl (\<lambda>a c. 16 * a + hex_val c) 0 g < 16 ^ length g"
proof (induction g rule: rev_induct)
  case Nil
  then show ?case by simp
next
  case (snoc c g)
  then have ih: "0 \<le> foldl (\<lambda>a c. 16 * a + hex_val c) 0 g"
      "foldl (\<lambda>a c. 16 * a + hex_val c) 0 g < 16 ^ length g"
    and c: "0 \<le> hex_val c" "hex_val c < 16"
    using hex_val_bound [of c] by simp_all
  from ih(2) have "foldl (\<lambda>a c. 16 * a + hex_val c) 0 g + 1 \<le> 16 ^ length g" by simp
  then have "16 * (foldl (\<lambda>a c. 16 * a + hex_val c) 0 g + 1) \<le> 16 * 16 ^ length g"
    by (rule mult_left_mono) simp
  with ih(1) c show ?case by simp
qed

lemma parseInt16_bound:
  assumes "list_all is_hex g" and "length g \<le> 4"
  shows "0 \<le> parseInt16 g \<and> parseInt16 g < 65536"
proof -
  have tw: "takeWhile is_hex g = g"
    using assms(1) by (simp add: takeWhile_eq_all_conv list_all_iff)
  have "(16 :: int) ^ length g \<le> 16 ^ 4"
    using assms(2) by (intro power_increasing) simp_all
  with hex_value_bound [OF assms(1)] show ?thesis
    by (simp add: parseInt16_def tw)
qed

lemma ipv6_parts_pairs:
  "\<forall>g \<in> set gs. 0 \<le> f g \<and> f g < 65536 \<Longrightarrow>
   ipv6_parts (concat (map (\<lambda>x. let num = f x in [ToUint8 (js_shr num 8), ToUint8 (js_rem num 256)]) gs))
     = map f gs"
proof (induction gs)
  case Nil
  then show ?case by simp
next
  case (Cons g gs)
  then have b: "0 \<le> f g" "f g < 65536" by simp_all
  from port_roundtrip [OF b] Cons show ?case
    by (simp add: Let_def js_shl_byte)
qed

lemma ipv6_roundtrip_decimal:
  assumes "v6Pattern_test h" and "0 \<le> prt" and "prt < 65536"
      and "concat r = serializeAddress P h prt @ rest"
  shows "\<exists>r'. deserializeAddress P r
           = (Inr \<lparr>hostname = join '':'' (map String_num (map parseInt16 (split_str CHR '':'' h))),
                   port = prt, bytesRead = 19\<rparr>, r')
         \<and> concat r' = rest"
proof -
  from v6Pattern_groups [OF assms(1)] obtain gs where
    gs: "length gs = 8" "split_str CHR '':'' h = gs" "CHR ''.'' \<notin> set h"
        "\<forall>g \<in> set gs. list_all is_hex g \<and> 1 \<le> length g \<and> length g \<le> 4"
    by blast
  from gs(3) v4Pattern_has_dot have no4: "\<not> v4Pattern_test h" by blast
  let ?pair = "\<lambda>x. let num = parseInt16 x in [ToUint8 (js_shr num 8), ToUint8 (js_rem num 256)]"
  let ?buff = "concat (map ?pair gs)"
  have ser: "serializeAddress P h prt
               = 4 # ?buff @ [ToUint8 (js_shr prt 8), ToUint8 (js_rem prt 256)]"
    using no4 assms(1) gs(2) by (simp add: serializeAddress_def ToUint8_def)
  have bounds: "\<forall>g \<in> set gs. 0 \<le> parseInt16 g \<and> parseInt16 g < 65536"
    using gs(4) parseInt16_bound by blast
  have parts: "ipv6_parts ?buff = map parseInt16 gs"
    using bounds by (rule ipv6_parts_pairs)
  have "length ?buff = 2 * length gs"
    by (induction gs) (simp_all add: Let_def)
  with gs(1) have len: "length ?buff = 16" by simp
  have c: "concat r = 4 # ?buff @ [ToUint8 (js_shr prt 8), ToUint8 (js_rem prt 256)] @ rest"
    using assms(4) ser by simp
  from deserializeAddress_ipv6 [OF c len, of P] port_roundtrip [OF assms(2,3)] parts gs(2)
  show ?thesis by simp
qed

subsection \<open>Claims about the encoder\<close>

text \<open>
  Every host name of which a prefix matches \<^verbatim>\<open>v4Pattern\<close> gets the type byte 1 and then one
  byte for each dot-separated piece of the whole host name, however many there are. When
  the host name is four groups of one to three digits and nothing else, these are four
  octets, the decimal values each modulo 256 (a value above 255 is not refused), and two
  bytes for the port follow, which for a 16-bit port are its high and its low byte.
\<close>

lemma serializeAddress_v4_pieces:
  assumes "v4Pattern_test h"
  shows "serializeAddress P h prt
           = [1] @ map (Number_u8 P) (split_str CHR ''.'' h)
               @ [ToUint8 (js_shr prt 8), ToUint8 (js_rem prt 256)]"
  using assms by (simp add: serializeAddress_def Let_def ToUint8_def)

lemma serializeAddress_dotted_quad:
  assumes "list_all is_digit g1" "1 \<le> length g1" "length g1 \<le> 3"
      and "list_all is_digit g2" "1 \<le> length g2" "length g2 \<le> 3"
      and "list_all is_digit g3" "1 \<le> length g3" "length g3 \<le> 3"
      and "list_all is_digit g4" "1 \<le> length g4" "length g4 \<le> 3"
  shows "\<exists>pb. length pb = 2
           \<and> map uint (serializeAddress P (g1 @ ''.'' @ g2 @ ''.'' @ g3 @ ''.'' @ g4) prt)
               = [1, decimal_value g1 mod 256, decimal_value g2 mod 256,
                  decimal_value g3 mod 256, decimal_value g4 mod 256] @ pb
           \<and> (0 \<le> prt \<and> prt < 65536 \<longrightarrow> pb = [prt div 256, prt mod 256])"
proof -
  let ?pb = "[uint (ToUint8 (js_shr prt 8)), uint (ToUint8 (js_rem prt 256))]"
  have "map uint (serializeAddress P (g1 @ ''.'' @ g2 @ ''.'' @ g3 @ ''.'' @ g4) prt)
          = [1, decimal_value g1 mod 256, decimal_value g2 mod 256,
             decimal_value g3 mod 256, decimal_value g4 mod 256] @ ?pb"
    unfolding serializeAddress_quad [OF assms] by (simp add: uint_ToUint8)
  moreover have "0 \<le> prt \<and> prt < 65536 \<longrightarrow> ?pb = [prt div 256, prt mod 256]"
    using port_bytes [of prt] by simp
  moreover have "length ?pb = 2" by simp
  ultimately show ?thesis by blast
qed

lemma example_quad_groups:
  "list_all is_digit ''999'' \<and> list_all is_digit ''2'' \<and> list_all is_digit ''3''
   \<and> list_all is_digit ''4'' \<and> decimal_value ''999'' = 999 \<and> decimal_value ''2'' = 2
   \<and> decimal_value ''3'' = 3 \<and> decimal_value ''4'' = 4"
  by code_simp

lemma serializeAddress_dotted_quad_example:
  "map uint (serializeAddress example_platform ''999.2.3.4'' 8080) = [1, 231, 2, 3, 4, 31, 144]"
  using serializeAddress_dotted_quad [where ?g1.0 = "''999''" and ?g2.0 = "''2''" and ?g3.0 = "''3''"
          and ?g4.0 = "''4''" and prt = 8080 and P = example_platform]
        example_quad_groups
  by simp

text \<open>
  C8, evaluated. The host name \<^verbatim>\<open>1.2.3.4.5\<close> has a prefix that matches \<^verbatim>\<open>v4Pattern\<close>, which
  has no \<^verbatim>\<open>$\<close>. Its encoding has five octets between the type byte 1 and the two bytes
  of the port, not four. The decoder reads four octets after a type byte 1, so it takes
  the fifth for the high byte of the port: it returns \<^verbatim>\<open>1.2.3.4\<close> with port 1280 and
  leaves one byte in the stream.
\<close>

theorem serializeAddress_prefix_five_octets:
  "v4Pattern_test ''1.2.3.4.5''
   \<and> serializeAddress P ''1.2.3.4.5'' 80 = [1, 1, 2, 3, 4, 5, 0, 80]
   \<and> deserializeAddress P [serializeAddress P ''1.2.3.4.5'' 80]
       = (Inr \<lparr>hostname = ''1.2.3.4'', port = 1280, bytesRead = 7\<rparr>, [[80]])"
  by code_simp

text \<open>
  C2, as the code has it. \<open>serializeAddress\<close> has no failing branch. For a host name that
  is neither pattern's and whose UTF-8 encoding has more than 255 bytes it returns the
  type byte 3, a length byte that is the number of bytes modulo 256 (less than the
  number of bytes), all the bytes of the name and two bytes for the port, which for a
  16-bit port are its high and its low byte.
\<close>

theorem serializeAddress_long_domain:
  assumes "\<not> v4Pattern_test h" and "\<not> v6Pattern_test h"
      and "255 < length (TextEncoder_encode h)"
  shows "\<exists>pb. length pb = 2
           \<and> map uint (serializeAddress P h prt)
               = [3, int (length (TextEncoder_encode h)) mod 256]
                   @ map uint (TextEncoder_encode h) @ pb
           \<and> (0 \<le> prt \<and> prt < 65536 \<longrightarrow> pb = [prt div 256, prt mod 256])
           \<and> int (length (TextEncoder_encode h)) mod 256 < int (length (TextEncoder_encode h))"
proof -
  let ?pb = "[uint (ToUint8 (js_shr prt 8)), uint (ToUint8 (js_rem prt 256))]"
  have "map uint (serializeAddress P h prt)
          = [3, int (length (TextEncoder_encode h)) mod 256]
              @ map uint (TextEncoder_encode h) @ ?pb"
    unfolding serializeAddress_domain [OF assms(1,2)] by (simp add: uint_ToUint8)
  moreover have "0 \<le> prt \<and> prt < 65536 \<longrightarrow> ?pb = [prt div 256, prt mod 256]"
    using port_bytes [of prt] by simp
  moreover have "length ?pb = 2" by simp
  moreover have "int (length (TextEncoder_encode h)) mod 256 < 256" by simp
  with assms(3) have "int (length (TextEncoder_encode h)) mod 256 < int (length (TextEncoder_encode h))"
    by linarith
  ultimately show ?thesis by blast
qed

lemma example_long_name:
  "\<not> v4Pattern_test (replicate 256 CHR ''x'') \<and> \<not> v6Pattern_test (replicate 256 CHR ''x'')
   \<and> TextEncoder_encode (replicate 256 CHR ''x'') = replicate 256 120"
  by code_simp

theorem serializeAddress_long_domain_witness:
  "map uint (serializeAddress example_platform (replicate 256 CHR ''x'') 443)
     = [3, 0] @ replicate 256 120 @ [1, 187]"
  using serializeAddress_long_domain [where h = "replicate 256 CHR ''x''" and prt = 443
          and P = example_platform]
        example_long_name
  by simp

theorem serializeAddress_long_domain_counterexample:
  "\<not> v4Pattern_test (replicate 256 CHR ''x'') \<and> \<not> v6Pattern_test (replicate 256 CHR ''x'')
   \<and> length (TextEncoder_encode (replicate 256 CHR ''x'')) = 256
   \<and> serializeAddress example_platform (replicate 256 CHR ''x'') 443
        = [3, 0] @ replicate 256 120 @ [1, 187]"
  by code_simp

subsection \<open>IPv6 addresses through the decoder\<close>

text \<open>
  C4, evaluated. The payload \<^verbatim>\<open>20 01 0d b8 00 .. 00 0a\<close> is the address
  \<^verbatim>\<open>2001:db8:0:0:0:0:0:a\<close>. The decoder forms the eight 16-bit values and reports 19 bytes
  (16 for the address), and renders the values with \<^verbatim>\<open>String\<close>, that is in decimal.
\<close>

theorem deserializeAddress_ipv6_decimal:
  "deserializeAddress example_platform
     [[4, 0x20, 0x01, 0x0d, 0xb8, 0, 0, 0, 0, 0, 0, 0, 0, 0, 0, 0, 0x0a, 0, 80]]
   = (Inr \<lparr>hostname = ''8193:3512:0:0:0:0:0:10'', port = 80, bytesRead = 19\<rparr>, [])"
  by code_simp

text \<open>
  C1, evaluated on an IPv6 address. \<^verbatim>\<open>2001:db8:0:0:0:0:0:a\<close> matches \<^verbatim>\<open>v6Pattern\<close>; what comes
  back from the decoder is \<^verbatim>\<open>8193:3512:0:0:0:0:0:10\<close>, and the groups of that text, read
  as the encoder reads groups, are not the groups that went in.
\<close>

theorem roundtrip_ipv6_decimal:
  "v6Pattern_test ''2001:db8:0:0:0:0:0:a''
   \<and> deserializeAddress example_platform
         [serializeAddress example_platform ''2001:db8:0:0:0:0:0:a'' 80]
       = (Inr \<lparr>hostname = ''8193:3512:0:0:0:0:0:10'', port = 80, bytesRead = 19\<rparr>, [])
   \<and> map parseInt16 (split_str CHR '':'' ''2001:db8:0:0:0:0:0:a'')
       = [8193, 3512, 0, 0, 0, 0, 0, 10]
   \<and> map parseInt16 (split_str CHR '':'' ''8193:3512:0:0:0:0:0:10'')
       = [33171, 13586, 0, 0, 0, 0, 0, 16]"
  by code_simp

subsection \<open>The handshake\<close>

lemma connect_result:
  "fst (connect P config opts c) = Inl e
     \<longleftrightarrow> fst (connectAndRequest P config Connect
              (case opt_hostname opts of None \<Rightarrow> ''127.0.0.1'' | Some h \<Rightarrow> h) (opt_port opts) c) = Inl e"
  "snd (connect P config opts c)
     = snd (connectAndRequest P config Connect
              (case opt_hostname opts of None \<Rightarrow> ''127.0.0.1'' | Some h \<Rightarrow> h) (opt_port opts) c)"
  by (auto simp: connect_def Let_def await_def split: prod.splits sum.splits)

lemma negotiation_reply:
  assumes "take 2 (concat (incoming c)) = [v, m]"
  shows "\<exists>r'. readN (incoming c) 2 = (Inr [v, m], r')"
proof -
  from assms have "length (take 2 (concat (incoming c))) = 2" by simp
  then have "2 \<le> length (concat (incoming c))" by simp
  from readN_enough [OF this] assms show ?thesis
    by auto
qed

lemma none_acceptable:
  assumes "take 2 (concat (incoming c)) = [5, 255]"
  shows "fst (connectAndRequest P config cmd host prt c)
           = Inl (Error ''no acceptable authentication methods'')"
proof -
  from negotiation_reply [OF assms] obtain r' where
    rd: "readN (incoming c) 2 = (Inr [5, 255], r')"
    by auto
  show ?thesis
    by (simp add: connectAndRequest_def Let_def conn_readN_def writeAll_def await_def rd
          SOCKS_VERSION_def)
qed

lemma written_extends:
  "\<exists>rest. written (snd (connectAndRequest P config cmd host prt c))
     = written c
       @ map ToUint8 ([SOCKS_VERSION, int (length ([AuthMethod_code NoAuth]
            @ (if credentials config \<noteq> None then [AuthMethod_code UsernamePassword] else [])))]
           @ ([AuthMethod_code NoAuth]
            @ (if credentials config \<noteq> None then [AuthMethod_code UsernamePassword] else [])))
       @ rest"
  unfolding connectAndRequest_def Let_def await_def conn_readN_def conn_deserializeAddress_def
  by (auto split: prod.splits sum.splits if_splits option.splits
        simp: writeAll_def try_close_def close_def)

lemma connectAndRequest_success_written:
  assumes "connectAndRequest P config cmd host prt c = (Inr a, c')"
  shows "\<exists>pre. written c' = written c @ pre
            @ map ToUint8 [SOCKS_VERSION, Command_code cmd, 0] @ serializeAddress P host prt"
  using assms
  unfolding connectAndRequest_def Let_def await_def conn_readN_def conn_deserializeAddress_def
  by (auto split: prod.splits sum.splits if_splits option.splits
        simp: writeAll_def try_close_def close_def)

text \<open>
  C7. Whatever the configuration, when the first two bytes that the proxy sends are
  \<open>[5, 0xFF]\<close> (in one chunk or in two), \<open>connect\<close> fails with the error "no acceptable
  authentication methods". And in every run the first bytes that the client writes are
  the version 5, the number of methods and the methods, which are \<open>NoAuth\<close> and then
  \<open>UsernamePassword\<close> exactly when the configuration has credentials.
\<close>

theorem connect_method_negotiation:
  "(take 2 (concat (incoming c)) = [5, 255] \<longrightarrow>
      fst (connect P config opts c) = Inl (Error ''no acceptable authentication methods''))
   \<and> (\<exists>rest. written (snd (connect P config opts c))
         = written c
           @ map ToUint8 ([SOCKS_VERSION, int (length ([AuthMethod_code NoAuth]
                @ (if credentials config \<noteq> None then [AuthMethod_code UsernamePassword] else [])))]
               @ ([AuthMethod_code NoAuth]
                @ (if credentials config \<noteq> None then [AuthMethod_code UsernamePassword] else [])))
           @ rest)"
  using none_acceptable [of c P config Connect] written_extends [of P config Connect _ _ c]
  by (simp add: connect_result)

lemma example_rejected:
  "connect example_platform
     \<lparr>proxy_hostname = ''proxy'', proxy_port = Some 1080,
        credentials = Some \<lparr>username = ''u'', password = ''pw''\<rparr>\<rparr>
     \<lparr>opt_hostname = Some ''example.com'', opt_port = 443\<rparr>
     \<lparr>incoming = [[5], [255]], written = [], closeCalls = 0, closeThrows = True\<rparr>
   = (Inl (Error ''no acceptable authentication methods''),
      \<lparr>incoming = [], written = [5, 2, 0, 2], closeCalls = 1, closeThrows = True\<rparr>)"
  by code_simp

theorem connect_method_negotiation_witness:
  "take 2 (concat [[5], [255 :: u8]]) = [5, 255]
   \<and> fst (connect example_platform
         \<lparr>proxy_hostname = ''proxy'', proxy_port = Some 1080,
            credentials = Some \<lparr>username = ''u'', password = ''pw''\<rparr>\<rparr>
         \<lparr>opt_hostname = Some ''example.com'', opt_port = 443\<rparr>
         \<lparr>incoming = [[5], [255]], written = [], closeCalls = 0, closeThrows = True\<rparr>)
       = Inl (Error ''no acceptable authentication methods'')"
  using connect_method_negotiation [of
         "\<lparr>incoming = [[5], [255]], written = [], closeCalls = 0, closeThrows = True\<rparr>"
         example_platform
         "\<lparr>proxy_hostname = ''proxy'', proxy_port = Some 1080,
            credentials = Some \<lparr>username = ''u'', password = ''pw''\<rparr>\<rparr>"
         "\<lparr>opt_hostname = Some ''example.com'', opt_port = 443\<rparr>"]
  by simp

text \<open>
  C3, evaluated. The end of the stream after one of the two bytes of the negotiation
  reply, and an address type 2 in the bound address, each end \<open>connectAndRequest\<close> with an
  error while \<open>close\<close> has not been called.
\<close>

theorem handshake_error_without_close:
  "connectAndRequest example_platform
     \<lparr>proxy_hostname = ''proxy'', proxy_port = Some 1080, credentials = None\<rparr>
     Connect ''example.com'' 80
     \<lparr>incoming = [[5]], written = [], closeCalls = 0, closeThrows = False\<rparr>
   = (Inl (UnexpectedEof ''reached EOF but we expected to read 1 more bytes''),
      \<lparr>incoming = [], written = [5, 1, 0], closeCalls = 0, closeThrows = False\<rparr>)
   \<and> connectAndRequest example_platform
     \<lparr>proxy_hostname = ''proxy'', proxy_port = Some 1080, credentials = None\<rparr>
     Connect ''1.2.3.4'' 80
     \<lparr>incoming = [[5, 0], [5, 0, 0, 2, 0, 0]], written = [], closeCalls = 0, closeThrows = False\<rparr>
   = (Inl (Error ''unexpected address type: 2''),
      \<lparr>incoming = [[0, 0]], written = [5, 1, 0, 5, 1, 0, 1, 1, 2, 3, 4, 0, 80],
         closeCalls = 0, closeThrows = False\<rparr>)"
  by code_simp

theorem handshake_error_without_close_witness:
  "closeCalls (snd (connectAndRequest example_platform
     \<lparr>proxy_hostname = ''proxy'', proxy_port = Some 1080, credentials = None\<rparr>
     Connect ''example.com'' 80
     \<lparr>incoming = [[5]], written = [], closeCalls = 0, closeThrows = False\<rparr>)) = 0
   \<and> closeCalls (snd (connectAndRequest example_platform
     \<lparr>proxy_hostname = ''proxy'', proxy_port = Some 1080, credentials = None\<rparr>
     Connect ''1.2.3.4'' 80
     \<lparr>incoming = [[5, 0], [5, 0, 0, 2, 0, 0]], written = [], closeCalls = 0,
        closeThrows = False\<rparr>)) = 0"
  using handshake_error_without_close by simp

text \<open>
  C10. When the options have no host name, \<open>connect\<close> hands \<^verbatim>\<open>127.0.0.1\<close> to
  \<open>connectAndRequest\<close> and puts it into the remote address of its result; when it
  succeeds, the request written to the proxy is the one for \<^verbatim>\<open>127.0.0.1\<close>.
\<close>

theorem connect_default_hostname:
  assumes "opt_hostname opts = None"
  shows "connect P config opts c
           = await (connectAndRequest P config Connect ''127.0.0.1'' (opt_port opts) c)
               (\<lambda>a c'. (Inr \<lparr>localAddr = \<lparr>addr_hostname = hostname a, addr_port = port a,
                                             transport = ''tcp''\<rparr>,
                               remoteAddr = \<lparr>addr_hostname = ''127.0.0.1'', addr_port = opt_port opts,
                                              transport = ''tcp''\<rparr>\<rparr>, c'))
         \<and> (\<forall>tc c'. connect P config opts c = (Inr tc, c') \<longrightarrow>
               addr_hostname (remoteAddr tc) = ''127.0.0.1''
               \<and> (\<exists>pre. written c' = written c @ pre
                      @ map ToUint8 [SOCKS_VERSION, Command_code Connect, 0]
                      @ serializeAddress P ''127.0.0.1'' (opt_port opts)))"
proof (intro conjI allI impI)
  show eq: "connect P config opts c
           = await (connectAndRequest P config Connect ''127.0.0.1'' (opt_port opts) c)
               (\<lambda>a c'. (Inr \<lparr>localAddr = \<lparr>addr_hostname = hostname a, addr_port = port a,
                                             transport = ''tcp''\<rparr>,
                               remoteAddr = \<lparr>addr_hostname = ''127.0.0.1'', addr_port = opt_port opts,
                                              transport = ''tcp''\<rparr>\<rparr>, c'))"
    using assms by (simp add: connect_def Let_def)
  fix tc c'
  assume ok: "connect P config opts c = (Inr tc, c')"
  from await_Inr [OF ok [unfolded eq]] obtain a where
    car: "connectAndRequest P config Connect ''127.0.0.1'' (opt_port opts) c = (Inr a, c')"
    and tc: "tc = \<lparr>localAddr = \<lparr>addr_hostname = hostname a, addr_port = port a, transport = ''tcp''\<rparr>,
                   remoteAddr = \<lparr>addr_hostname = ''127.0.0.1'', addr_port = opt_port opts,
                                  transport = ''tcp''\<rparr>\<rparr>"
    by auto
  from tc show "addr_hostname (remoteAddr tc) = ''127.0.0.1''" by simp
  from connectAndRequest_success_written [OF car]
  show "\<exists>pre. written c' = written c @ pre
          @ map ToUint8 [SOCKS_VERSION, Command_code Connect, 0]
          @ serializeAddress P ''127.0.0.1'' (opt_port opts)" .
qed

lemma example_connected:
  "connect example_platform
     \<lparr>proxy_hostname = ''proxy'', proxy_port = Some 1080, credentials = None\<rparr>
     \<lparr>opt_hostname = None, opt_port = 80\<rparr>
     \<lparr>incoming = [[5, 0], [5, 0, 0, 1, 10, 0, 0, 7, 0x1f, 0x90]], written = [],
        closeCalls = 0, closeThrows = False\<rparr>
   = (Inr \<lparr>localAddr = \<lparr>addr_hostname = ''10.0.0.7'', addr_port = 8080, transport = ''tcp''\<rparr>,
           remoteAddr = \<lparr>addr_hostname = ''127.0.0.1'', addr_port = 80, transport = ''tcp''\<rparr>\<rparr>,
      \<lparr>incoming = [], written = [5, 1, 0, 5, 1, 0, 1, 127, 0, 0, 1, 0, 80],
         closeCalls = 0, closeThrows = False\<rparr>)"
  by code_simp

lemma example_request:
  "map ToUint8 [SOCKS_VERSION, Command_code Connect, 0]
     @ serializeAddress example_platform ''127.0.0.1'' 80
   = [5, 1, 0, 1, 127, 0, 0, 1, 0, 80]"
  by code_simp

theorem connect_default_hostname_witness:
  "opt_hostname \<lparr>opt_hostname = None, opt_port = 80\<rparr> = None
   \<and> (\<exists>tc c'. connect example_platform
         \<lparr>proxy_hostname = ''proxy'', proxy_port = Some 1080, credentials = None\<rparr>
         \<lparr>opt_hostname = None, opt_port = 80\<rparr>
         \<lparr>incoming = [[5, 0], [5, 0, 0, 1, 10, 0, 0, 7, 0x1f, 0x90]], written = [],
            closeCalls = 0, closeThrows = False\<rparr> = (Inr tc, c')
       \<and> addr_hostname (remoteAddr tc) = ''127.0.0.1''
       \<and> (\<exists>pre. written c' = pre @ [5, 1, 0, 1, 127, 0, 0, 1, 0, 80]))"
proof -
  have h: "opt_hostname \<lparr>opt_hostname = None, opt_port = 80\<rparr> = None" by simp
  from connect_default_hostname [OF h, of example_platform
         "\<lparr>proxy_hostname = ''proxy'', proxy_port = Some 1080, credentials = None\<rparr>"
         "\<lparr>incoming = [[5, 0], [5, 0, 0, 1, 10, 0, 0, 7, 0x1f, 0x90]], written = [],
            closeCalls = 0, closeThrows = False\<rparr>"]
  have "\<forall>tc c'. connect example_platform
         \<lparr>proxy_hostname = ''proxy'', proxy_port = Some 1080, credentials = None\<rparr>
         \<lparr>opt_hostname = None, opt_port = 80\<rparr>
         \<lparr>incoming = [[5, 0], [5, 0, 0, 1, 10, 0, 0, 7, 0x1f, 0x90]], written = [],
            closeCalls = 0, closeThrows = False\<rparr> = (Inr tc, c') \<longrightarrow>
       addr_hostname (remoteAddr tc) = ''127.0.0.1''
       \<and> (\<exists>pre. written c' = written
              \<lparr>incoming = [[5, 0], [5, 0, 0, 1, 10, 0, 0, 7, 0x1f, 0x90]], written = [],
                 closeCalls = 0, closeThrows = False\<rparr> @ pre
              @ map ToUint8 [SOCKS_VERSION, Command_code Connect, 0]
              @ serializeAddress example_platform ''127.0.0.1''
                  (opt_port \<lparr>opt_hostname = None, opt_port = 80\<rparr>))"
    by (rule conjunct2)
  from this [rule_format, OF example_connected] example_connected example_request
  show ?thesis
    by simp
qed

end
